theory Spec2Isabelle
  imports Complex_Main "HOL-Library.List_Lexorder" "HOL-Library.Char_ord" "HOL-Library.Sublist"
begin

section \<open>Python values shared by the modules\<close>

text \<open>
  A Python \<open>str\<close> is a \<^typ>\<open>string\<close>. An exception caught by \<open>except Exception\<close> is a
  value \<open>Exception msg\<close>, where \<open>msg\<close> is what \<open>str(e)\<close> returns; a call that may raise
  returns \<open>exn + 'a\<close> with \<open>Inl\<close> for the raise. A langchain \<open>Document\<close> has its text
  and its metadata dictionary, kept as an association list read with \<^const>\<open>map_of\<close>.
\<close>

datatype exn = Exception string

record document =
  page_content :: string
  metadata :: "(string \<times> string) list"

datatype console = Printed string | Traceback exn

text \<open>
  \<open>str(e)\<close>, the truth value of an optional string (\<open>None\<close> and the empty string are
  false), \<open>sep.join(xs)\<close>, and the text made of lines.
\<close>

definition unlines :: "string list \<Rightarrow> string" where
  "unlines ls = concat (map (\<lambda>l. l @ ''\<newline>'') ls)"

definition str_join :: "'a list \<Rightarrow> 'a list list \<Rightarrow> 'a list" where
  "str_join sep xs = (case xs of [] \<Rightarrow> [] | x # ys \<Rightarrow> x @ concat (map (\<lambda>y. sep @ y) ys))"

definition truthy :: "string option \<Rightarrow> bool" where
  "truthy v = (case v of None \<Rightarrow> False | Some s \<Rightarrow> s \<noteq> [])"

definition str :: "exn \<Rightarrow> string" where
  "str e = (case e of Exception msg \<Rightarrow> msg)"

section \<open>\<open>os.path\<close> (POSIX) and \<open>str\<close> helpers used by \<open>ingest.py\<close>\<close>

definition rfind :: "string \<Rightarrow> char \<Rightarrow> int" where
  "rfind s c =
     (if c \<in> set s
      then int (length s) - 1 - int (length (takeWhile (\<lambda>x. x \<noteq> c) (rev s)))
      else - 1)"

definition startswith :: "string \<Rightarrow> string \<Rightarrow> bool" where
  "startswith s pre = (take (length pre) s = pre)"

definition endswith :: "string \<Rightarrow> string \<Rightarrow> bool" where
  "endswith s suf = (drop (length s - length suf) s = suf \<and> length suf \<le> length s)"

definition basename :: "string \<Rightarrow> string" where
  "basename p = drop (nat (rfind p CHR ''/'' + 1)) p"

text \<open>
  \<open>genericpath._splitext\<close>: the extension starts at the last dot of the last path
  component, unless only dots precede it there.
\<close>

function splitext_scan :: "string \<Rightarrow> nat \<Rightarrow> nat \<Rightarrow> string \<times> string" where
  "splitext_scan p filenameIndex dotIndex =
     (if filenameIndex < dotIndex
      then (if take 1 (drop filenameIndex p) \<noteq> ''.''
            then (take dotIndex p, drop dotIndex p)
            else splitext_scan p (Suc filenameIndex) dotIndex)
      else (p, []))"
  by pat_completeness auto
termination
  by (relation "measure (\<lambda>(p, i, d). d - i)") auto

declare splitext_scan.simps [simp del]

definition splitext :: "string \<Rightarrow> string \<times> string" where
  "splitext p =
     (let sepIndex = rfind p CHR ''/''; dotIndex = rfind p CHR ''.''
      in if dotIndex > sepIndex
         then splitext_scan p (nat (sepIndex + 1)) (nat dotIndex)
         else (p, []))"

definition join2 :: "string \<Rightarrow> string \<Rightarrow> string" where
  "join2 path b =
     (if startswith b ''/'' then b
      else if path = [] \<or> endswith path ''/'' then path @ b
      else path @ ''/'' @ b)"

definition os_path_join :: "string \<Rightarrow> string list \<Rightarrow> string" where
  "os_path_join a ps = foldl join2 a ps"

text \<open>
  \<open>str.lower\<close> on the ASCII letters. Python also lowers letters outside ASCII; none of
  them lowers to a letter of \<open>.md\<close>, \<open>.pdf\<close>, \<open>.docx\<close> or \<open>.txt\<close>, the only strings
  the result is compared with.
\<close>

definition ascii_uppercase :: string where
  "ascii_uppercase = ''ABCDEFGHIJKLMNOPQRSTUVWXYZ''"

definition ascii_lowercase :: string where
  "ascii_lowercase = ''abcdefghijklmnopqrstuvwxyz''"

definition lower_char :: "char \<Rightarrow> char" where
  "lower_char c =
     (case map_of (zip ascii_uppercase ascii_lowercase) c of Some l \<Rightarrow> l | None \<Rightarrow> c)"

definition lower :: "string \<Rightarrow> string" where
  "lower s = map lower_char s"

section \<open>\<open>constants.py\<close>\<close>

definition INDEX_NAME :: string where
  "INDEX_NAME = ''hnsw_index''"



definition HNSW_EF_CONSTRUCTION :: nat where
  "HNSW_EF_CONSTRUCTION = 64"

definition HNSW_M :: nat where
  "HNSW_M = 16"

definition DEFAULT_DATA_DIR :: string where
  "DEFAULT_DATA_DIR = ''data''"

text \<open>
  The prompts hold characters outside ASCII; a \<^typ>\<open>string\<close> holds them in UTF-8, and the
  names below are the ones that occur. A prompt is the list of its lines, each ended by a
  newline by \<^const>\<open>unlines\<close>; \<open>USER_PROMPT_TEMPLATE\<close> is a function of the two
  variables \<open>{input}\<close> and \<open>{context}\<close> of the template.
\<close>

definition rsquo :: string where
  "rsquo = [CHR 0xE2, CHR 0x80, CHR 0x99]"

definition ldquo :: string where
  "ldquo = [CHR 0xE2, CHR 0x80, CHR 0x9C]"

definition rdquo :: string where
  "rdquo = [CHR 0xE2, CHR 0x80, CHR 0x9D]"

definition ndash :: string where
  "ndash = [CHR 0xE2, CHR 0x80, CHR 0x93]"

definition mdash :: string where
  "mdash = [CHR 0xE2, CHR 0x80, CHR 0x94]"

definition check_mark :: string where
  "check_mark = [CHR 0xE2, CHR 0x9C, CHR 0x93]"

definition warning_sign :: string where
  "warning_sign = [CHR 0xE2, CHR 0x9A, CHR 0xA0]"

definition RAG_K :: nat where
  "RAG_K = 10"

definition USE_MULTI_QUERY :: bool where
  "USE_MULTI_QUERY = True"

definition RERANK_TOP_N :: nat where
  "RERANK_TOP_N = 8"

definition COHERE_RERANK_MODEL :: string where
  "COHERE_RERANK_MODEL = ''rerank-multilingual-v3.0''"

definition DEFAULT_OPENAI_MODEL :: string where
  "DEFAULT_OPENAI_MODEL = ''gpt-4o''"

definition REDIS_CACHE_DISTANCE_THRESHOLD :: real where
  "REDIS_CACHE_DISTANCE_THRESHOLD = 8 / 10"

definition SYSTEM_PROMPT_head :: "string list" where
  "SYSTEM_PROMPT_head =
     ['''',
      (''You are CivicLens AI and Executive Summarizer, a precise, non-partisan '' @
       ''knowledge assistant designed to advance AI education, civic literacy, and '' @
       ''responsible governance for America'' @ rsquo @ ''s future.''),
      '''',
      ''Mission Context:'',
      (''CivicLens AI supports the national challenge of '' @ ldquo @
       ''Advancing Artificial Intelligence (AI) Education for American Youth'' @ rdquo @
       '' by transforming complex government documents'' @ mdash @ ''such as U.S. ''),
      (''Executive Orders'' @ mdash @
       ''into accurate, age-appropriate, and plain-language explanations. ''),
      '''',
      (''The system serves multiple audiences, including youth (ages 10'' @ ndash @
       ''18) and federal leadership, without political persuasion or advocacy.''),
      '''',
      ''Core Purpose:'',
      (''- Help young Americans understand how government decisions affect their '' @
       ''education, opportunities, and future''),
      (''- Support policymakers with clear, plain-English summaries of complex policy '' @
       ''documents''),
      (''- Demonstrate responsible, ethical, and transparent use of AI in civic '' @
       ''education''),
      '''',
      ''Operating Rules:'',
      ''- Use ONLY the information explicitly provided in the supplied context'',
      ''- Do NOT add outside knowledge, interpretation, speculation, or opinion'',
      ''- Carefully review ALL context passages before answering'',
      ''- Cite values, dates, names, codes, titles, and identifiers exactly as written'',
      ''- Preserve original wording when referencing official terms or labels'',
      (''- Distinguish clearly between numeric values, identifiers, dates, and '' @
       ''descriptive text''),
      (''- If multiple records exist, prioritize the most recent by date unless '' @
       ''instructed otherwise'')]"

definition SYSTEM_PROMPT_fallback :: "string list" where
  "SYSTEM_PROMPT_fallback =
     [''- If the answer is not present in the context, respond exactly:'',
      (''  '' @ ldquo @ ''I don'' @ rsquo @ ''t know based on the available documents.'' @ rdquo)]"

definition SYSTEM_PROMPT_tail :: "string list" where
  "SYSTEM_PROMPT_tail =
     ['''',
      ''Ethics & Safety Constraints:'',
      ''- No political advocacy or persuasion'',
      ''- No partisan framing or bias'',
      ''- Age-appropriate, neutral explanations'',
      (''- Transparent, explainable outputs suitable for educational and governmental '' @
       ''use''),
      ''- Human oversight assumed for high-impact decisions'',
      '''',
      ''Tone & Style:'',
      ''- Clear, factual, and concise'',
      ''- Plain language where possible, without altering meaning'',
      ''- Educational and neutral, suitable for civic learning environments'',
      '''']"

definition USER_PROMPT_TEMPLATE_instructions :: "string list" where
  "USER_PROMPT_TEMPLATE_instructions =
     ['''',
      '''',
      ''Instructions:'',
      ''1. Search through ALL context passages for information relevant to the question'',
      ''2. Extract the answer directly from the context only'',
      (''3. Quote or reference specific values, dates, names, titles, codes, or '' @
       ''identifiers exactly as written''),
      ''4. Respect labels, headings, and structured fields present in the source text'',
      (''5. Clearly distinguish between different data types (e.g., dates vs. numeric '' @
       ''values vs. IDs)''),
      ''6. Do NOT infer, summarize beyond the text, or use outside knowledge'',
      ''7. If the information is not explicitly stated in the context, respond:'',
      (''   '' @ ldquo @ ''I don'' @ rsquo @ ''t know based on the available documents.'' @
       rdquo),
      ''   '',
      (''8. Provide a summary that captures the main ideas, key points, and important '' @
       ''details.''),
      ''9. Keep the summary clear, concise, and easy to understand.'',
      ''10. Highlight any actionable items, conclusions, or recommendations if present.'',
      '''']"


definition SYSTEM_PROMPT :: string where
  "SYSTEM_PROMPT =
     unlines (SYSTEM_PROMPT_head @ SYSTEM_PROMPT_fallback @ SYSTEM_PROMPT_tail)"

definition USER_PROMPT_TEMPLATE :: "string \<Rightarrow> string \<Rightarrow> string" where
  "USER_PROMPT_TEMPLATE input context' =
     ''Question: '' @ input @ unlines ['''', '''', ''Context from documents:''] @ context' @
     unlines USER_PROMPT_TEMPLATE_instructions"

definition fallback_rule :: string where
  "fallback_rule =
     ''- If the answer is not present in the context, respond exactly:\<newline>'' @
     ''  '' @ ldquo @ ''I don'' @ rsquo @ ''t know based on the available documents.'' @ rdquo"

definition fallback_phrase :: string where
  "fallback_phrase = ''I don'' @ rsquo @ ''t know based on the available documents.''"

definition fallback_phrase_ascii :: string where
  "fallback_phrase_ascii = ''I don't know based on the available documents.''"

section \<open>\<open>ingest.py\<close>: loading the documents\<close>

datatype loader =
  UnstructuredMarkdownLoader | PyMuPDFLoader | UnstructuredWordDocumentLoader | TextLoader

text \<open>
  The file system and the parsers are the environment of \<open>_load_docs\<close>: \<open>glob\<close> is
  \<open>glob.glob(pattern, recursive=True)\<close>, \<open>isdir\<close> is \<open>os.path.isdir\<close>, and
  \<open>load k path\<close> is \<open>k(path).load()\<close>, which returns the whole list of the file's
  documents or raises.
\<close>

type_synonym load_acc = "document list \<times> string list \<times> console list"

definition DATA_DIR :: "(string \<Rightarrow> string option) \<Rightarrow> string" where
  "DATA_DIR getenv = (case getenv ''DATA_DIR'' of Some d \<Rightarrow> d | None \<Rightarrow> DEFAULT_DATA_DIR)"

text \<open>
  One \<open>try\<close> branch of the loop body: the documents are appended, then the path; when
  the parser raises, neither happens and the handler prints.
\<close>

definition try_load :: "(exn + document list) \<Rightarrow> string \<Rightarrow> load_acc \<Rightarrow> load_acc" where
  "try_load r path acc =
     (case acc of (docs, file_paths, out) \<Rightarrow>
        (case r of
           Inr ds \<Rightarrow> (docs @ ds, file_paths @ [path], out)
         | Inl e \<Rightarrow>
             (docs, file_paths,
              out @ [Printed (''INGEST ERROR: failed to load '' @ path), Traceback e])))"

definition load_path ::
  "(string \<Rightarrow> bool) \<Rightarrow> (loader \<Rightarrow> string \<Rightarrow> exn + document list) \<Rightarrow> string \<Rightarrow>
     load_acc \<Rightarrow> load_acc" where
  "load_path isdir load path acc =
     (if isdir path \<or> startswith (basename path) ''.'' then acc
      else
        let ext = lower (snd (splitext path))
        in if ext = ''.md'' then try_load (load UnstructuredMarkdownLoader path) path acc
           else if ext = ''.pdf'' then try_load (load PyMuPDFLoader path) path acc
           else if ext = ''.docx'' then
             try_load (load UnstructuredWordDocumentLoader path) path acc
           else if ext = ''.txt'' then try_load (load TextLoader path) path acc
           else acc)"

definition load_loop ::
  "(string \<Rightarrow> bool) \<Rightarrow> (loader \<Rightarrow> string \<Rightarrow> exn + document list) \<Rightarrow> string list \<Rightarrow>
     load_acc \<Rightarrow> load_acc" where
  "load_loop isdir load paths acc = foldl (\<lambda>a path. load_path isdir load path a) acc paths"

definition load_docs ::
  "(string \<Rightarrow> string list) \<Rightarrow> (string \<Rightarrow> bool) \<Rightarrow>
     (loader \<Rightarrow> string \<Rightarrow> exn + document list) \<Rightarrow> string \<Rightarrow> load_acc" where
  "load_docs glob isdir load base =
     load_loop isdir load (glob (os_path_join base [''**'', ''*''])) ([], [], [])"

text \<open>
  The parser the \<open>if\<close>/\<open>elif\<close> chain of \<open>_load_docs\<close> selects for a path that is
  neither a directory nor hidden, and whether the loop body skips the path before the chain.
\<close>

definition select_loader :: "string \<Rightarrow> loader option" where
  "select_loader path =
     (let ext = lower (snd (splitext path))
      in if ext = ''.md'' then Some UnstructuredMarkdownLoader
         else if ext = ''.pdf'' then Some PyMuPDFLoader
         else if ext = ''.docx'' then Some UnstructuredWordDocumentLoader
         else if ext = ''.txt'' then Some TextLoader
         else None)"

definition skipped :: "(string \<Rightarrow> bool) \<Rightarrow> string \<Rightarrow> bool" where
  "skipped isdir path = (isdir path \<or> startswith (basename path) ''.'')"

text \<open>The parser selected for a path of the listing raises.\<close>

definition parse_fails ::
  "(string \<Rightarrow> bool) \<Rightarrow> (loader \<Rightarrow> string \<Rightarrow> exn + document list) \<Rightarrow> string \<Rightarrow> bool" where
  "parse_fails isdir load path =
     (\<not> skipped isdir path \<and>
      (case select_loader path of
         None \<Rightarrow> False
       | Some k \<Rightarrow> (case load k path of Inl e \<Rightarrow> True | Inr ds \<Rightarrow> False)))"

text \<open>
  What one path of the listing adds to the three results of the loop: its documents, itself
  when it was parsed, and what the handler printed when the parser raised.
\<close>

definition docs_of ::
  "(string \<Rightarrow> bool) \<Rightarrow> (loader \<Rightarrow> string \<Rightarrow> exn + document list) \<Rightarrow> string \<Rightarrow>
     document list" where
  "docs_of isdir load path =
     (if skipped isdir path then []
      else case select_loader path of
             None \<Rightarrow> []
           | Some k \<Rightarrow> (case load k path of Inr ds \<Rightarrow> ds | Inl e \<Rightarrow> []))"

definition parsed ::
  "(string \<Rightarrow> bool) \<Rightarrow> (loader \<Rightarrow> string \<Rightarrow> exn + document list) \<Rightarrow> string \<Rightarrow> bool" where
  "parsed isdir load path =
     (\<not> skipped isdir path \<and>
      (case select_loader path of
         None \<Rightarrow> False
       | Some k \<Rightarrow> (case load k path of Inr ds \<Rightarrow> True | Inl e \<Rightarrow> False)))"

definition errors_of ::
  "(string \<Rightarrow> bool) \<Rightarrow> (loader \<Rightarrow> string \<Rightarrow> exn + document list) \<Rightarrow> string \<Rightarrow>
     console list" where
  "errors_of isdir load path =
     (if skipped isdir path then []
      else case select_loader path of
             None \<Rightarrow> []
           | Some k \<Rightarrow>
               (case load k path of
                  Inr ds \<Rightarrow> []
                | Inl e \<Rightarrow> [Printed (''INGEST ERROR: failed to load '' @ path), Traceback e]))"

text \<open>An example directory: three files, the parser of the second one raises.\<close>

definition example_listing :: "string \<Rightarrow> string list" where
  "example_listing pat = [''data/a.txt'', ''data/b.pdf'', ''data/c.MD'']"

definition example_load :: "loader \<Rightarrow> string \<Rightarrow> exn + document list" where
  "example_load k path =
     (if path = ''data/b.pdf'' then Inl (Exception ''cannot open broken document'')
      else Inr [\<lparr>page_content = ''text of '' @ path, metadata = [(''source'', path)]\<rparr>])"

text \<open>Two paths with their dots and separators at the same places.\<close>

definition same_shape :: "string \<Rightarrow> string \<Rightarrow> bool" where
  "same_shape p q =
     list_all2
       (\<lambda>x y. (x = CHR ''.'' \<longleftrightarrow> y = CHR ''.'') \<and> (x = CHR ''/'' \<longleftrightarrow> y = CHR ''/'')) p q"

section \<open>\<open>ingest.py\<close>: chunking\<close>

text \<open>
  \<open>_chunk\<close> hands the documents to \<open>RecursiveCharacterTextSplitter(chunk_size=CHUNK_SIZE,
  chunk_overlap=CHUNK_OVERLAP)\<close> of \<open>langchain_text_splitters\<close>. The splitter is embedded as
  that library has it, with the defaults \<open>_chunk\<close> leaves in place: the separators
  paragraph break, newline, space and the empty string, \<open>keep_separator=True\<close>,
  \<open>strip_whitespace=True\<close> and \<open>len\<close> as the length. The functions are over any type of
  characters \<open>'c\<close>, with the separators and the test for white space as arguments; the
  length of a text is the number of its characters.
\<close>

























section \<open>\<open>ingest.py\<close>: the search index\<close>

text \<open>
  The vector store is an outside service. \<open>_create_index\<close> is embedded over any store state
  \<open>'st\<close> and the two operations it awaits: \<open>valid store name\<close> is
  \<open>store.ais_valid_index(name)\<close> and \<open>build index concurrently store\<close> is
  \<open>store.aapply_vector_index(index, concurrently=...)\<close>, which returns the store after the
  call and raises or returns normally. The run records the indexes it built (the builds that
  returned normally) and what it printed.
\<close>

datatype distance_strategy = COSINE_DISTANCE | EUCLIDEAN | INNER_PRODUCT

record hnsw_index =
  hnsw_name :: string
  hnsw_distance_strategy :: distance_strategy
  hnsw_ef_construction :: nat
  hnsw_m :: nat

record 'st index_run =
  outcome :: "exn + unit"
  store_after :: 'st
  built :: "hnsw_index list"
  printed :: "console list"

definition create_index ::
  "('st \<Rightarrow> string \<Rightarrow> bool) \<Rightarrow> (hnsw_index \<Rightarrow> bool \<Rightarrow> 'st \<Rightarrow> (exn + unit) \<times> 'st) \<Rightarrow> 'st \<Rightarrow>
     'st index_run" where
  "create_index valid build store =
     (if valid store INDEX_NAME
      then \<lparr>outcome = Inr (), store_after = store, built = [],
            printed =
              [Printed (''Index '' @ [CHR 0x27] @ INDEX_NAME @ [CHR 0x27] @
                        '' already exists, skipping creation.'')]\<rparr>
      else
        let index = \<lparr>hnsw_name = INDEX_NAME, hnsw_distance_strategy = COSINE_DISTANCE,
                      hnsw_ef_construction = HNSW_EF_CONSTRUCTION, hnsw_m = HNSW_M\<rparr>
        in case build index True store of
             (Inl e, store') \<Rightarrow>
               \<lparr>outcome = Inl e, store_after = store', built = [], printed = []\<rparr>
           | (Inr u, store') \<Rightarrow>
               \<lparr>outcome = Inr (), store_after = store', built = [index],
                printed = [Printed ''Index created successfully.'']\<rparr>)"

text \<open>
  A store kept in memory, as an example of the interface: its state is the list of the
  names of its indexes, and building an index whose name is taken raises.
\<close>

definition mem_valid_index :: "string list \<Rightarrow> string \<Rightarrow> bool" where
  "mem_valid_index store n = (n \<in> set store)"

definition mem_apply_vector_index ::
  "hnsw_index \<Rightarrow> bool \<Rightarrow> string list \<Rightarrow> (exn + unit) \<times> string list" where
  "mem_apply_vector_index index concurrently store =
     (if hnsw_name index \<in> set store
      then (Inl (Exception (''relation already exists: '' @ hnsw_name index)), store)
      else (Inr (), store @ [hnsw_name index]))"

section \<open>\<open>chainlit_app.py\<close>: the ingestion job\<close>

text \<open>
  The module keeps the dictionary \<open>_ingest_last\<close> and the task \<open>_ingest_task\<close>. The task
  made by \<open>asyncio.create_task(_ingest_job())\<close> is \<open>Scheduled\<close> until the event loop runs
  its body, \<open>Awaiting\<close> while the body waits for \<open>run_ingest_async()\<close>, and \<open>Finished\<close>
  once the body has returned or an exception has left it, or the task was cancelled before
  its body ran; \<open>task.done()\<close> holds of a finished task only. \<open>time.time()\<close> is an input.
\<close>

datatype status = idle | running | succeeded | failed

record stats =
  documents :: nat
  chunks :: nat
  files :: "string list"

record ingest_last =
  status :: status
  started_at :: "real option"
  finished_at :: "real option"
  stats :: "stats option"
  error :: "string option"

datatype task = Scheduled | Awaiting | Finished

definition task_done :: "task \<Rightarrow> bool" where
  "task_done t = (t = Finished)"

record app =
  ingest_last :: ingest_last
  ingest_task :: "task option"

definition initial :: app where
  "initial =
     \<lparr>ingest_last =
        \<lparr>status = idle, started_at = None, finished_at = None, stats = None, error = None\<rparr>,
      ingest_task = None\<rparr>"

text \<open>
  How \<open>await run_ingest_async()\<close> ends in \<open>_ingest_job\<close>: it returns the statistics, it
  raises an exception of the class \<open>Exception\<close>, or it raises one outside that class
  (\<open>asyncio.CancelledError\<close> when the task is cancelled while it waits, \<open>KeyboardInterrupt\<close>,
  \<open>SystemExit\<close>). The handler \<open>except Exception\<close> does not catch the last kind: it leaves
  \<open>_ingest_job\<close> with the dictionary as it is.
\<close>

datatype ingest_outcome = Returns stats | Raises exn | RaisesBase

text \<open>
  \<open>_ingest_job\<close> in two parts: the update before \<open>await run_ingest_async()\<close>, and what
  follows it.
\<close>

definition ingest_job_begin :: "real \<Rightarrow> ingest_last \<Rightarrow> ingest_last" where
  "ingest_job_begin now j =
     j\<lparr>status := running, started_at := Some now, finished_at := None, stats := None,
       error := None\<rparr>"

definition ingest_job_end :: "ingest_outcome \<Rightarrow> real \<Rightarrow> ingest_last \<Rightarrow> ingest_last" where
  "ingest_job_end r now j =
     (case r of
        Returns st \<Rightarrow> j\<lparr>status := succeeded, finished_at := Some now, stats := Some st\<rparr>
      | Raises e \<Rightarrow> j\<lparr>status := failed, finished_at := Some now, error := Some (str e)\<rparr>
      | RaisesBase \<Rightarrow> j)"

text \<open>
  The \<open>/ingest\<close> branch of \<open>handle_command\<close> under \<open>_ingest_lock\<close>: the reply
  \<open>AlreadyRunning\<close> stands for the message that ingestion is already running, \<open>Starting\<close>
  for the message that ingestion starts, after which the task is created. The guard reads
  the task, not the status: \<open>in_flight\<close> is \<open>_ingest_task and not _ingest_task.done()\<close>.
\<close>

datatype reply = AlreadyRunning | Starting

definition in_flight :: "app \<Rightarrow> bool" where
  "in_flight a = (case ingest_task a of None \<Rightarrow> False | Some t \<Rightarrow> \<not> task_done t)"

definition handle_ingest :: "app \<Rightarrow> reply \<times> app" where
  "handle_ingest a =
     (if in_flight a
      then (AlreadyRunning, a)
      else (Starting, a\<lparr>ingest_task := Some Scheduled\<rparr>))"

text \<open>
  What happens to the module's state: an \<open>/ingest\<close> command; the event loop running the
  first part of the job; \<open>run_ingest_async()\<close> returning or raising, which ends the task
  in each of the three cases; and the cancellation of a task whose body has not run yet,
  which ends the task without running the body. An event that cannot happen in a state (no
  task is scheduled, no job is waiting) leaves it as it is.
\<close>

datatype event = CmdIngest | JobBegins real | JobEnds ingest_outcome real | CancelledUnstarted

fun step :: "event \<Rightarrow> app \<Rightarrow> app" where
  "step CmdIngest a = snd (handle_ingest a)"
| "step (JobBegins now) a =
     (if ingest_task a = Some Scheduled
      then a\<lparr>ingest_last := ingest_job_begin now (ingest_last a), ingest_task := Some Awaiting\<rparr>
      else a)"
| "step (JobEnds r now) a =
     (if ingest_task a = Some Awaiting
      then a\<lparr>ingest_last := ingest_job_end r now (ingest_last a), ingest_task := Some Finished\<rparr>
      else a)"
| "step CancelledUnstarted a =
     (if ingest_task a = Some Scheduled then a\<lparr>ingest_task := Some Finished\<rparr> else a)"

definition run :: "event list \<Rightarrow> app \<Rightarrow> app" where
  "run es a = foldl (\<lambda>a e. step e a) a es"

text \<open>The events in which an exception leaves \<open>_ingest_job\<close> uncaught.\<close>

fun uncaught :: "event \<Rightarrow> bool" where
  "uncaught (JobEnds RaisesBase now) = True"
| "uncaught e = False"

text \<open>
  While the body of the job waits for the ingestion the status is \<open>running\<close>, and a
  running job has neither statistics nor an error.
\<close>

definition job_wf :: "app \<Rightarrow> bool" where
  "job_wf a =
     ((ingest_task a = Some Awaiting \<longrightarrow> status (ingest_last a) = running) \<and>
      (status (ingest_last a) = running \<longrightarrow>
         stats (ingest_last a) = None \<and> error (ingest_last a) = None))"

text \<open>
  As long as no exception has left the job uncaught, the status is \<open>running\<close> exactly
  while the body of the job waits for the ingestion.
\<close>

definition job_inv :: "app \<Rightarrow> bool" where
  "job_inv a = ((status (ingest_last a) = running) = (ingest_task a = Some Awaiting))"



section \<open>\<open>rag.py\<close>\<close>

text \<open>
  The services \<open>_build_chain\<close> talks to are its environment: \<open>vector_store_retriever k\<close>
  is \<open>(await get_vector_store()).as_retriever(search_kwargs={"k": k})\<close>,
  \<open>multi_query_from_llm r\<close> is the construction of the query model and of
  \<open>MultiQueryRetriever.from_llm\<close> over \<open>r\<close>, \<open>cohere_api_key\<close> is
  \<open>os.getenv("COHERE_API_KEY")\<close>, \<open>cohere_rerank top_n model\<close> is the construction of
  \<open>CohereRerank\<close>, and \<open>chat_openai\<close> is the construction of the answering model. A
  retriever maps a query to documents or raises, a compressor maps documents and a query to
  documents or raises, and a chat model maps the system and user messages to its reply or
  raises.
\<close>

type_synonym retriever = "string \<Rightarrow> exn + document list"

type_synonym compressor = "document list \<Rightarrow> string \<Rightarrow> exn + document list"

type_synonym chat_model = "string \<times> string \<Rightarrow> exn + string"

record rag_chain =
  chain_retriever :: retriever
  chain_llm :: chat_model

record rag_env =
  vector_store_retriever :: "nat \<Rightarrow> exn + retriever"
  multi_query_from_llm :: "retriever \<Rightarrow> exn + retriever"
  cohere_api_key :: "string option"
  cohere_rerank :: "nat \<Rightarrow> string \<Rightarrow> exn + compressor"
  chat_openai :: "exn + chat_model"

text \<open>
  \<open>ContextualCompressionRetriever\<close>: the documents of the base retriever, compressed
  when there are any; what either raises is raised.
\<close>

definition contextual_compression :: "retriever \<Rightarrow> compressor \<Rightarrow> retriever" where
  "contextual_compression base_retriever base_compressor query =
     (case base_retriever query of
        Inl e \<Rightarrow> Inl e
      | Inr docs \<Rightarrow> if docs = [] then Inr [] else base_compressor docs query)"

definition multi_query_stage :: "rag_env \<Rightarrow> retriever \<Rightarrow> retriever \<times> console list" where
  "multi_query_stage env base_retriever =
     (if USE_MULTI_QUERY
      then (case multi_query_from_llm env base_retriever of
              Inr multi_query_retriever \<Rightarrow>
                (multi_query_retriever, [Printed (check_mark @ '' Multi-query retriever enabled'')])
            | Inl e \<Rightarrow>
                (base_retriever,
                 [Printed (warning_sign @ '' Multi-query retriever failed: '' @ str e)]))
      else (base_retriever, []))"

definition rerank_stage :: "rag_env \<Rightarrow> retriever \<Rightarrow> retriever \<times> console list" where
  "rerank_stage env base_retriever =
     (if truthy (cohere_api_key env)
      then (case cohere_rerank env RERANK_TOP_N COHERE_RERANK_MODEL of
              Inr compressor \<Rightarrow>
                (contextual_compression base_retriever compressor,
                 [Printed (check_mark @ '' Cohere reranker enabled (top_n=8)'')])
            | Inl e \<Rightarrow>
                (base_retriever, [Printed (warning_sign @ '' Cohere reranker failed: '' @ str e)]))
      else (base_retriever, []))"

definition build_chain :: "rag_env \<Rightarrow> (exn + rag_chain) \<times> console list" where
  "build_chain env =
     (case vector_store_retriever env RAG_K of
        Inl e \<Rightarrow> (Inl e, [])
      | Inr store_retriever \<Rightarrow>
          (case multi_query_stage env store_retriever of (base_retriever, out1) \<Rightarrow>
             (case rerank_stage env base_retriever of (retriever, out2) \<Rightarrow>
                (case chat_openai env of
                   Inl e \<Rightarrow> (Inl e, out1 @ out2)
                 | Inr llm \<Rightarrow>
                     (Inr \<lparr>chain_retriever = retriever, chain_llm = llm\<rparr>, out1 @ out2)))))"

definition ainvoke :: "rag_chain \<Rightarrow> string \<Rightarrow> exn + string \<times> document list" where
  "ainvoke chain input =
     (case chain_retriever chain input of
        Inl e \<Rightarrow> Inl e
      | Inr docs \<Rightarrow>
          (case chain_llm chain
                  (SYSTEM_PROMPT,
                   USER_PROMPT_TEMPLATE input
                     (str_join ''\<newline>\<newline>'' (map page_content docs))) of
             Inl e \<Rightarrow> Inl e
           | Inr answer \<Rightarrow> Inr (answer, docs)))"

text \<open>
  \<open>sorted({d.metadata.get("source") for d in docs})\<close>: the set of what \<open>get\<close> gives,
  \<open>None\<close> for a document without the key, in ascending order. Python compares no string
  with \<open>None\<close>: \<open>sorted\<close> raises a \<open>TypeError\<close> when the set holds both (its message is
  shortened here), and gives \<open>[None]\<close> when the set holds \<open>None\<close> only.
\<close>

definition sorted_set :: "string option list \<Rightarrow> exn + string option list" where
  "sorted_set xs =
     (if None \<in> set xs
      then (if set xs = {None} then Inr [None]
            else Inl (Exception ''TypeError: < not supported between NoneType and str''))
      else Inr (map Some (sorted_list_of_set (set [s. Some s \<leftarrow> xs]))))"

definition answer_with_docs ::
  "rag_env \<Rightarrow> string \<Rightarrow> exn + string \<times> string option list \<times> string list" where
  "answer_with_docs env question =
     (case fst (build_chain env) of
        Inl e \<Rightarrow> Inl e
      | Inr chain \<Rightarrow>
          (case ainvoke chain question of
             Inl e \<Rightarrow> Inl e
           | Inr (answer, docs) \<Rightarrow>
               (case sorted_set (map (\<lambda>d. map_of (metadata d) ''source'') docs) of
                  Inl e \<Rightarrow> Inl e
                | Inr sources \<Rightarrow> Inr (answer, sources, map page_content docs))))"

text \<open>
  The module sets \<open>RedisCache\<close> as the cache of the model calls when \<open>REDIS_URL\<close> is set and
  the server answers; the source calls it the standard Redis cache with exact match
  caching. Its entries are kept under the key made of the prompt followed by the model
  string (the key's hash is taken as the key itself). \<open>generate_cached\<close> is a model
  call behind the cache; its third result counts the calls of the model it made.
  \<open>REDIS_CACHE_DISTANCE_THRESHOLD\<close> is imported by \<open>rag.py\<close> and used nowhere.
\<close>

type_synonym redis = "(string \<times> string) list"

definition redis_key :: "string \<Rightarrow> string \<Rightarrow> string" where
  "redis_key prompt llm_string = prompt @ llm_string"

definition cache_lookup :: "redis \<Rightarrow> string \<Rightarrow> string \<Rightarrow> string option" where
  "cache_lookup r prompt llm_string = map_of r (redis_key prompt llm_string)"

definition cache_update :: "redis \<Rightarrow> string \<Rightarrow> string \<Rightarrow> string \<Rightarrow> redis" where
  "cache_update r prompt llm_string return_val = (redis_key prompt llm_string, return_val) # r"

definition init_llm_cache ::
  "string option \<Rightarrow> (string \<Rightarrow> exn + redis) \<Rightarrow> redis option \<times> console list" where
  "init_llm_cache REDIS_URL connect =
     (if truthy REDIS_URL
      then (case connect (case REDIS_URL of Some url \<Rightarrow> url | None \<Rightarrow> []) of
              Inr r \<Rightarrow> (Some r, [Printed (check_mark @ '' Redis cache enabled'')])
            | Inl e \<Rightarrow> (None, [Printed (warning_sign @ '' Redis cache disabled: '' @ str e)]))
      else (None, []))"

definition generate_cached ::
  "redis option \<Rightarrow> string \<Rightarrow> (string \<Rightarrow> exn + string) \<Rightarrow> string \<Rightarrow>
     (exn + string) \<times> redis option \<times> nat" where
  "generate_cached llm_cache llm_string model prompt =
     (case llm_cache of
        None \<Rightarrow> (model prompt, None, 1)
      | Some r \<Rightarrow>
          (case cache_lookup r prompt llm_string of
             Some cached \<Rightarrow> (Inr cached, Some r, 0)
           | None \<Rightarrow>
               (case model prompt of
                  Inl e \<Rightarrow> (Inl e, Some r, 1)
                | Inr v \<Rightarrow> (Inr v, Some (cache_update r prompt llm_string v), 1))))"

text \<open>Example inputs.\<close>

definition example_fingerprint :: "string \<Rightarrow> string" where
  "example_fingerprint question = lower question"

definition example_distance :: "string \<Rightarrow> string \<Rightarrow> real" where
  "example_distance a b = (if a = b then 0 else 1)"

definition example_doc :: "string \<Rightarrow> string \<Rightarrow> document" where
  "example_doc source text' = \<lparr>page_content = text', metadata = [(''source'', source)]\<rparr>"

definition example_env :: "document list \<Rightarrow> string \<Rightarrow> rag_env" where
  "example_env docs reply =
     \<lparr>vector_store_retriever = (\<lambda>k. Inr (\<lambda>query. Inr (take k docs))),
      multi_query_from_llm = (\<lambda>base. Inr base),
      cohere_api_key = None,
      cohere_rerank = (\<lambda>top_n model. Inl (Exception ''COHERE_API_KEY is not set'')),
      chat_openai = Inr (\<lambda>messages. Inr reply)\<rparr>"

definition rerank_unavailable :: "nat \<Rightarrow> string \<Rightarrow> exn + compressor" where
  "rerank_unavailable top_n model =
     Inr (\<lambda>docs query. Inl (Exception ''503 Service Unavailable''))"

section \<open>Properties of the path helpers\<close>

lemma lower_char_dot [simp]: "lower_char c = CHR ''.'' \<longleftrightarrow> c = CHR ''.''"
  by (simp add: lower_char_def ascii_uppercase_def ascii_lowercase_def)

lemma lower_char_slash [simp]: "lower_char c = CHR ''/'' \<longleftrightarrow> c = CHR ''/''"
  by (simp add: lower_char_def ascii_uppercase_def ascii_lowercase_def)

lemma lower_char_idem [simp]: "lower_char (lower_char c) = lower_char c"
  by (simp add: lower_char_def ascii_uppercase_def ascii_lowercase_def)

lemma lower_idem [simp]: "lower (lower s) = lower s"
  by (simp add: lower_def)

lemma lower_append [simp]: "lower (a @ b) = lower a @ lower b"
  by (simp add: lower_def)

lemma load_path_select:
  "load_path isdir load path acc =
     (if skipped isdir path then acc
      else case select_loader path of
             None \<Rightarrow> acc
           | Some k \<Rightarrow> try_load (load k path) path acc)"
  by (simp add: load_path_def select_loader_def skipped_def Let_def)

subsection \<open>\<open>splitext\<close> and letter case\<close>

lemma takeWhile_shape:
  "list_all2 (\<lambda>x y. x = c \<longleftrightarrow> y = c) p q \<Longrightarrow>
     length (takeWhile (\<lambda>x. x \<noteq> c) p) = length (takeWhile (\<lambda>x. x \<noteq> c) q) \<and> (c \<in> set p \<longleftrightarrow> c \<in> set q)"
  by (induction rule: list_all2_induct) auto

lemma rfind_shape:
  assumes "list_all2 (\<lambda>x y. x = c \<longleftrightarrow> y = c) p q"
  shows "rfind p c = rfind q c"
proof -
  from assms have "list_all2 (\<lambda>x y. x = c \<longleftrightarrow> y = c) (rev p) (rev q)" by simp
  from takeWhile_shape[OF this] takeWhile_shape[OF assms] list_all2_lengthD[OF assms]
  show ?thesis by (simp add: rfind_def)
qed

lemma same_shape_dot: "same_shape p q \<Longrightarrow> list_all2 (\<lambda>x y. x = CHR ''.'' \<longleftrightarrow> y = CHR ''.'') p q"
  unfolding same_shape_def by (erule list_all2_mono) simp

lemma same_shape_sep: "same_shape p q \<Longrightarrow> list_all2 (\<lambda>x y. x = CHR ''/'' \<longleftrightarrow> y = CHR ''/'') p q"
  unfolding same_shape_def by (erule list_all2_mono) simp

lemma take1_shape:
  assumes "list_all2 (\<lambda>x y. x = CHR ''.'' \<longleftrightarrow> y = CHR ''.'') p q"
  shows "take 1 (drop i p) = ''.'' \<longleftrightarrow> take 1 (drop i q) = ''.''"
proof -
  have "list_all2 (\<lambda>x y. x = CHR ''.'' \<longleftrightarrow> y = CHR ''.'') (take 1 (drop i p)) (take 1 (drop i q))"
    using assms by (intro list_all2_takeI list_all2_dropI)
  then show ?thesis
    by (cases "take 1 (drop i p)"; cases "take 1 (drop i q)") (auto simp: list_all2_Cons1)
qed

lemma splitext_scan_shape:
  assumes "list_all2 (\<lambda>x y. x = CHR ''.'' \<longleftrightarrow> y = CHR ''.'') p q"
  shows "(splitext_scan p i d = (take d p, drop d p) \<and> splitext_scan q i d = (take d q, drop d q))
       \<or> (splitext_scan p i d = (p, []) \<and> splitext_scan q i d = (q, []))"
  using assms
proof (induction p i d rule: splitext_scan.induct)
  case (1 p i d)
  show ?case
  proof (cases "i < d")
    case False
    then show ?thesis
      by (simp add: splitext_scan.simps[of p i d] splitext_scan.simps[of q i d])
  next
    case True
    note lt = this
    show ?thesis
    proof (cases "take 1 (drop i p) = ''.''")
      case True
      with take1_shape[OF "1.prems", of i] have "take 1 (drop i q) = ''.''" by simp
      with True lt "1.IH"[OF lt _ "1.prems"] show ?thesis
        by (simp add: splitext_scan.simps[of p i d] splitext_scan.simps[of q i d])
    next
      case False
      with take1_shape[OF "1.prems", of i] have "take 1 (drop i q) \<noteq> ''.''" by simp
      with False lt show ?thesis
        by (simp add: splitext_scan.simps[of p i d] splitext_scan.simps[of q i d])
    qed
  qed
qed

lemma splitext_shape:
  assumes "same_shape p q"
  shows "(\<exists>d. splitext p = (take d p, drop d p) \<and> splitext q = (take d q, drop d q))"
proof -
  have s: "rfind p CHR ''/'' = rfind q CHR ''/''" and d: "rfind p CHR ''.'' = rfind q CHR ''.''"
    using assms by (simp_all add: rfind_shape same_shape_dot same_shape_sep)
  have len: "length p = length q" using assms by (simp add: same_shape_def list_all2_lengthD)
  show ?thesis
  proof (cases "rfind p CHR ''.'' > rfind p CHR ''/''")
    case False
    then have "splitext p = (take (length p) p, drop (length p) p)" "splitext q = (take (length p) q, drop (length p) q)"
      using s d len by (simp_all add: splitext_def)
    then show ?thesis by blast
  next
    case True
    let ?i = "nat (rfind p CHR ''/'' + 1)" and ?d = "nat (rfind p CHR ''.'')"
    from True have p: "splitext p = splitext_scan p ?i ?d" and q: "splitext q = splitext_scan q ?i ?d"
      using s d by (simp_all add: splitext_def)
    from splitext_scan_shape[OF same_shape_dot[OF assms], of ?i ?d]
    show ?thesis
    proof
      assume "splitext_scan p ?i ?d = (take ?d p, drop ?d p) \<and> splitext_scan q ?i ?d = (take ?d q, drop ?d q)"
      with p q show ?thesis by auto
    next
      assume "splitext_scan p ?i ?d = (p, []) \<and> splitext_scan q ?i ?d = (q, [])"
      with p q len have "splitext p = (take (length p) p, drop (length p) p)" "splitext q = (take (length p) q, drop (length p) q)"
        by simp_all
      then show ?thesis by blast
    qed
  qed
qed

lemma same_shape_lower_ext: "same_shape (a @ b) (a @ lower b)"
  unfolding same_shape_def lower_def
  by (rule list_all2_appendI) (simp_all add: list_all2_map2 list_all2_same list.rel_refl)

lemma splitext_lower_ext:
  "splitext (fst (splitext p) @ lower (snd (splitext p))) = (fst (splitext p), lower (snd (splitext p)))"
proof -
  obtain d where d: "splitext p = (take d p, drop d p)"
    using splitext_shape[of p p] by (auto simp: same_shape_def list_all2_same list.rel_refl)
  have "same_shape (take d p @ drop d p) (take d p @ lower (drop d p))" by (rule same_shape_lower_ext)
  then have ss: "same_shape p (take d p @ lower (drop d p))" by simp
  from splitext_shape[OF ss] obtain e where
    e: "splitext p = (take e p, drop e p)"
       "splitext (take d p @ lower (drop d p)) = (take e (take d p @ lower (drop d p)), drop e (take d p @ lower (drop d p)))"
    by blast
  from e(1) d have td: "take e p = take d p" and dd: "drop e p = drop d p" by simp_all
  have lp: "length (take e p) = length (take d p)" using td by simp
  have "take e (take d p @ lower (drop d p)) = take d p \<and> drop e (take d p @ lower (drop d p)) = lower (drop d p)"
  proof (cases "e \<le> length p"; cases "d \<le> length p")
    assume "e \<le> length p" "d \<le> length p"
    with lp have "e = d" by simp
    with \<open>d \<le> length p\<close> show ?thesis by (simp add: lower_def)
  next
    assume "e \<le> length p" "\<not> d \<le> length p"
    with lp have "e = length p" by simp
    with \<open>\<not> d \<le> length p\<close> show ?thesis by (simp add: lower_def)
  next
    assume "\<not> e \<le> length p" "d \<le> length p"
    with lp have "d = length p" by simp
    with \<open>\<not> e \<le> length p\<close> show ?thesis by (simp add: lower_def)
  next
    assume "\<not> e \<le> length p" "\<not> d \<le> length p"
    then show ?thesis by (simp add: lower_def)
  qed
  with e(2) d show ?thesis by simp
qed

lemma select_loader_lower_ext:
  "select_loader (fst (splitext p) @ lower (snd (splitext p))) = select_loader p"
  by (simp add: select_loader_def splitext_lower_ext)

lemma load_path_lower_ext:
  "load_path isdir load path acc =
     (if skipped isdir path then acc
      else case select_loader (fst (splitext path) @ lower (snd (splitext path))) of
             None \<Rightarrow> acc
           | Some k \<Rightarrow> try_load (load k path) path acc)"
  by (simp add: load_path_select select_loader_lower_ext)

lemma select_loader_examples:
  "select_loader ''data/Report.PDF'' = Some PyMuPDFLoader \<and>
   select_loader ''data/notes.Md'' = Some UnstructuredMarkdownLoader \<and>
   select_loader ''data/memo.DocX'' = Some UnstructuredWordDocumentLoader \<and>
   select_loader ''data/README.TXT'' = Some TextLoader \<and>
   select_loader ''data/Report.pdf'' = Some PyMuPDFLoader \<and>
   select_loader ''data/notes.md'' = Some UnstructuredMarkdownLoader \<and>
   select_loader ''data/memo.docx'' = Some UnstructuredWordDocumentLoader \<and>
   select_loader ''data/README.txt'' = Some TextLoader"
  by code_simp

text \<open>
  Claim C10: the dispatch on the extension is case-insensitive. For every path, the loop
  body of \<open>_load_docs\<close> hands the file to the parser that the \<open>if\<close>/\<open>elif\<close> chain
  selects for the same path with its extension in lower case; so \<open>.PDF\<close>, \<open>.Md\<close>,
  \<open>.DocX\<close> and \<open>.TXT\<close> go to the parsers of \<open>.pdf\<close>, \<open>.md\<close>, \<open>.docx\<close> and
  \<open>.txt\<close>.
\<close>

theorem extension_dispatch_case_insensitive:
  "load_path isdir load path acc =
     (if skipped isdir path then acc
      else case select_loader (fst (splitext path) @ lower (snd (splitext path))) of
             None \<Rightarrow> acc
           | Some k \<Rightarrow> try_load (load k path) path acc) \<and>
   select_loader ''data/Report.PDF'' = select_loader ''data/Report.pdf'' \<and>
   select_loader ''data/Report.PDF'' = Some PyMuPDFLoader \<and>
   select_loader ''data/notes.Md'' = select_loader ''data/notes.md'' \<and>
   select_loader ''data/notes.Md'' = Some UnstructuredMarkdownLoader \<and>
   select_loader ''data/memo.DocX'' = select_loader ''data/memo.docx'' \<and>
   select_loader ''data/memo.DocX'' = Some UnstructuredWordDocumentLoader \<and>
   select_loader ''data/README.TXT'' = select_loader ''data/README.txt'' \<and>
   select_loader ''data/README.TXT'' = Some TextLoader"
  using load_path_lower_ext [of isdir load path acc] select_loader_examples
  by simp

subsection \<open>The loop of \<open>_load_docs\<close>\<close>

lemma load_path_acc:
  "load_path isdir load path (docs, fs, out) =
     (docs @ docs_of isdir load path,
      fs @ (if parsed isdir load path then [path] else []),
      out @ errors_of isdir load path)"
  by (simp add: load_path_select docs_of_def parsed_def errors_of_def try_load_def
      split: option.splits sum.splits)

lemma load_loop_acc:
  "load_loop isdir load paths (docs, fs, out) =
     (docs @ concat (map (docs_of isdir load) paths),
      fs @ filter (parsed isdir load) paths,
      out @ concat (map (errors_of isdir load) paths))"
proof (induction paths arbitrary: docs fs out)
  case Nil
  then show ?case by (simp add: load_loop_def)
next
  case (Cons p ps)
  have "load_loop isdir load (p # ps) (docs, fs, out) =
        load_loop isdir load ps (load_path isdir load p (docs, fs, out))"
    by (simp add: load_loop_def)
  then show ?case by (simp add: load_path_acc Cons.IH)
qed

lemma parse_fails_contrib:
  assumes "parse_fails isdir load p"
  shows "docs_of isdir load p = []" "\<not> parsed isdir load p"
    "\<exists>e. errors_of isdir load p = [Printed (''INGEST ERROR: failed to load '' @ p), Traceback e]"
  using assms
  by (auto simp: parse_fails_def docs_of_def parsed_def errors_of_def split: option.splits sum.splits)

text \<open>
  Claim C6: when the parser selected for one file of the listing raises, the failure is
  printed, the file is in neither the returned documents nor the returned paths, and the
  documents and paths returned are those of the listing without that file. The function has
  no raising branch: the handler catches what the parser raises.
\<close>

theorem load_docs_skips_failing_file:
  assumes fails: "parse_fails isdir load p"
    and listing: "glob (os_path_join base [''**'', ''*'']) = ps @ p # qs"
  shows "fst (load_docs glob isdir load base) =
           fst (load_docs (\<lambda>pat. ps @ qs) isdir load base) \<and>
         fst (snd (load_docs glob isdir load base)) =
           fst (snd (load_docs (\<lambda>pat. ps @ qs) isdir load base)) \<and>
         fst (load_docs glob isdir load base) =
           concat (map (docs_of isdir load) (ps @ qs)) \<and>
         fst (snd (load_docs glob isdir load base)) = filter (parsed isdir load) (ps @ qs) \<and>
         p \<notin> set (fst (snd (load_docs glob isdir load base))) \<and>
         Printed (''INGEST ERROR: failed to load '' @ p)
           \<in> set (snd (snd (load_docs glob isdir load base)))"
  using parse_fails_contrib [OF fails] listing
  by (auto simp: load_docs_def load_loop_acc)

theorem load_docs_skips_failing_file_witness:
  "parse_fails (\<lambda>path. False) example_load ''data/b.pdf'' \<and>
   example_listing (os_path_join ''data'' [''**'', ''*'']) =
     [''data/a.txt''] @ ''data/b.pdf'' # [''data/c.MD''] \<and>
   fst (snd (load_docs example_listing (\<lambda>path. False) example_load ''data'')) =
     [''data/a.txt'', ''data/c.MD''] \<and>
   map page_content (fst (load_docs example_listing (\<lambda>path. False) example_load ''data'')) =
     [''text of data/a.txt'', ''text of data/c.MD''] \<and>
   Printed ''INGEST ERROR: failed to load data/b.pdf''
     \<in> set (snd (snd (load_docs example_listing (\<lambda>path. False) example_load ''data'')))"
proof -
  have fails: "parse_fails (\<lambda>path. False) example_load ''data/b.pdf''"
    by code_simp
  have listing: "example_listing (os_path_join ''data'' [''**'', ''*'']) =
      [''data/a.txt''] @ ''data/b.pdf'' # [''data/c.MD'']"
    by (simp add: example_listing_def)
  have rest: "filter (parsed (\<lambda>path. False) example_load) ([''data/a.txt''] @ [''data/c.MD'']) =
      [''data/a.txt'', ''data/c.MD'']"
    by code_simp
  have docs: "map page_content
      (concat (map (docs_of (\<lambda>path. False) example_load) ([''data/a.txt''] @ [''data/c.MD'']))) =
      [''text of data/a.txt'', ''text of data/c.MD'']"
    by code_simp
  note t = load_docs_skips_failing_file
         [where glob = example_listing and base = "''data''" and ps = "[''data/a.txt'']"
            and qs = "[''data/c.MD'']", OF fails listing]
  from t have "fst (snd (load_docs example_listing (\<lambda>path. False) example_load ''data'')) =
      filter (parsed (\<lambda>path. False) example_load) ([''data/a.txt''] @ [''data/c.MD''])"
    by blast
  then have files: "fst (snd (load_docs example_listing (\<lambda>path. False) example_load ''data'')) =
      [''data/a.txt'', ''data/c.MD'']"
    by (rule trans) (rule rest)
  from t have "fst (load_docs example_listing (\<lambda>path. False) example_load ''data'') =
      concat (map (docs_of (\<lambda>path. False) example_load) ([''data/a.txt''] @ [''data/c.MD'']))"
    by blast
  then have "map page_content
      (fst (load_docs example_listing (\<lambda>path. False) example_load ''data'')) =
      map page_content
        (concat (map (docs_of (\<lambda>path. False) example_load) ([''data/a.txt''] @ [''data/c.MD''])))"
    by (rule arg_cong)
  then have texts: "map page_content
      (fst (load_docs example_listing (\<lambda>path. False) example_load ''data'')) =
      [''text of data/a.txt'', ''text of data/c.MD'']"
    by (rule trans) (rule docs)
  have msg: "''INGEST ERROR: failed to load '' @ ''data/b.pdf'' =
      ''INGEST ERROR: failed to load data/b.pdf''"
    by simp
  from t have "Printed (''INGEST ERROR: failed to load '' @ ''data/b.pdf'')
      \<in> set (snd (snd (load_docs example_listing (\<lambda>path. False) example_load ''data'')))"
    by blast
  then have printed: "Printed ''INGEST ERROR: failed to load data/b.pdf''
      \<in> set (snd (snd (load_docs example_listing (\<lambda>path. False) example_load ''data'')))"
    by (simp only: msg)
  from fails listing files texts printed show ?thesis
    by blast
qed

subsection \<open>The text splitter\<close>

















subsection \<open>The splitter on paragraphs\<close>













subsection \<open>\<open>_create_index\<close>\<close>

lemma create_index_existing:
  "valid store INDEX_NAME \<Longrightarrow>
     outcome (create_index valid build store) = Inr () \<and>
     store_after (create_index valid build store) = store \<and>
     built (create_index valid build store) = []"
  by (simp add: create_index_def)

lemma create_index_built_le: "length (built (create_index valid build store)) \<le> 1"
  by (simp add: create_index_def Let_def split: prod.splits sum.splits)

lemma create_index_built_valid:
  assumes law: "\<And>index c s s'. build index c s = (Inr (), s') \<Longrightarrow> valid s' (hnsw_name index)"
    and b: "built (create_index valid build store) \<noteq> []"
  shows "valid (store_after (create_index valid build store)) INDEX_NAME"
proof -
  let ?index = "\<lparr>hnsw_name = INDEX_NAME, hnsw_distance_strategy = COSINE_DISTANCE,
                      hnsw_ef_construction = HNSW_EF_CONSTRUCTION, hnsw_m = HNSW_M\<rparr>"
  from b have nv: "\<not> valid store INDEX_NAME" by (auto simp: create_index_def)
  obtain r s' where a: "build ?index True store = (r, s')" by (cases "build ?index True store")
  with b nv obtain u where "r = Inr u" by (cases r) (auto simp: create_index_def)
  with a have "build ?index True store = (Inr (), s')" by simp
  from law[OF this] a \<open>r = Inr u\<close> nv show ?thesis by (simp add: create_index_def)
qed

text \<open>
  Claim C3: index creation is idempotent. Over every store in which an index that was
  built is valid afterwards, and for every store state: two calls in succession build the
  index at most once; a call that finds an index named \<open>INDEX_NAME\<close> returns normally,
  builds nothing and leaves the store as it is; and after a call that returned normally
  the next call is such a call.
\<close>

theorem create_index_idempotent:
  assumes law: "\<And>index c s s'. build index c s = (Inr (), s') \<Longrightarrow> valid s' (hnsw_name index)"
  shows "length (built (create_index valid build store)) +
         length (built (create_index valid build
                          (store_after (create_index valid build store)))) \<le> 1 \<and>
         (valid store INDEX_NAME \<longrightarrow>
            outcome (create_index valid build store) = Inr () \<and>
            store_after (create_index valid build store) = store \<and>
            built (create_index valid build store) = []) \<and>
         (outcome (create_index valid build store) = Inr () \<longrightarrow>
            outcome (create_index valid build
                       (store_after (create_index valid build store))) = Inr () \<and>
            store_after (create_index valid build
                           (store_after (create_index valid build store))) =
              store_after (create_index valid build store) \<and>
            built (create_index valid build
                     (store_after (create_index valid build store))) = [])"
proof (intro conjI impI)
  let ?r = "create_index valid build store"
  show "length (built ?r) + length (built (create_index valid build (store_after ?r))) \<le> 1"
  proof (cases "built ?r = []")
    case True
    then show ?thesis using create_index_built_le[of valid build "store_after ?r"] by simp
  next
    case False
    from create_index_built_valid[where build = build and valid = valid, OF law False]
    have "built (create_index valid build (store_after ?r)) = []"
      by (simp add: create_index_existing)
    then show ?thesis using create_index_built_le[of valid build store] by simp
  qed
next
  assume "valid store INDEX_NAME"
  then show "outcome (create_index valid build store) = Inr ()"
    "store_after (create_index valid build store) = store"
    "built (create_index valid build store) = []"
    by (simp_all add: create_index_existing)
next
  let ?r = "create_index valid build store"
  assume ok: "outcome ?r = Inr ()"
  have v: "valid (store_after ?r) INDEX_NAME"
  proof (cases "built ?r = []")
    case False
    from create_index_built_valid[where build = build and valid = valid, OF law False]
    show ?thesis .
  next
    case True
    with ok show ?thesis
      by (auto simp: create_index_def Let_def split: if_splits prod.splits sum.splits)
  qed
  then show "outcome (create_index valid build (store_after ?r)) = Inr ()"
    "store_after (create_index valid build (store_after ?r)) = store_after ?r"
    "built (create_index valid build (store_after ?r)) = []"
    by (simp_all add: create_index_existing)
qed

theorem create_index_idempotent_witness:
  "store_after (create_index mem_valid_index mem_apply_vector_index []) = [INDEX_NAME] \<and>
   length (built (create_index mem_valid_index mem_apply_vector_index [])) = 1 \<and>
   mem_valid_index [INDEX_NAME] INDEX_NAME \<and>
   outcome (create_index mem_valid_index mem_apply_vector_index [INDEX_NAME]) = Inr () \<and>
   store_after (create_index mem_valid_index mem_apply_vector_index [INDEX_NAME]) =
     [INDEX_NAME] \<and>
   built (create_index mem_valid_index mem_apply_vector_index [INDEX_NAME]) = [] \<and>
   length (built (create_index mem_valid_index mem_apply_vector_index [])) +
   length (built (create_index mem_valid_index mem_apply_vector_index
                    (store_after (create_index mem_valid_index mem_apply_vector_index []))))
     \<le> 1"
proof -
  have law: "\<And>index c s s'. mem_apply_vector_index index c s = (Inr (), s') \<Longrightarrow>
      mem_valid_index s' (hnsw_name index)"
    by (auto simp: mem_apply_vector_index_def mem_valid_index_def split: if_splits)
  have first: "store_after (create_index mem_valid_index mem_apply_vector_index []) =
      [INDEX_NAME]"
    "length (built (create_index mem_valid_index mem_apply_vector_index [])) = 1"
    by (simp_all add: create_index_def mem_valid_index_def mem_apply_vector_index_def)
  have v: "mem_valid_index [INDEX_NAME] INDEX_NAME"
    by (simp add: mem_valid_index_def)
  have "mem_valid_index [INDEX_NAME] INDEX_NAME \<longrightarrow>
      outcome (create_index mem_valid_index mem_apply_vector_index [INDEX_NAME]) = Inr () \<and>
      store_after (create_index mem_valid_index mem_apply_vector_index [INDEX_NAME]) =
        [INDEX_NAME] \<and>
      built (create_index mem_valid_index mem_apply_vector_index [INDEX_NAME]) = []"
    by (rule create_index_idempotent
          [where build = mem_apply_vector_index and valid = mem_valid_index
             and store = "[INDEX_NAME]", THEN conjunct2, THEN conjunct1])
       (erule law)
  with v have second:
    "outcome (create_index mem_valid_index mem_apply_vector_index [INDEX_NAME]) = Inr ()"
    "store_after (create_index mem_valid_index mem_apply_vector_index [INDEX_NAME]) =
      [INDEX_NAME]"
    "built (create_index mem_valid_index mem_apply_vector_index [INDEX_NAME]) = []"
    by blast+
  have twice: "length (built (create_index mem_valid_index mem_apply_vector_index [])) +
     length (built (create_index mem_valid_index mem_apply_vector_index
                    (store_after (create_index mem_valid_index mem_apply_vector_index []))))
     \<le> 1"
    by (rule create_index_idempotent
          [where build = mem_apply_vector_index and valid = mem_valid_index
             and store = "[]", THEN conjunct1])
       (erule law)
  from first v second twice show ?thesis by blast
qed

subsection \<open>The ingestion job\<close>

lemma run_snoc: "run (es @ [e]) a = step e (run es a)"
  by (simp add: run_def)

lemma job_wf_initial: "job_wf initial"
  by (simp add: job_wf_def initial_def)

lemma job_wf_step: "job_wf a \<Longrightarrow> job_wf (step e a)"
  by (cases e)
     (auto simp: job_wf_def handle_ingest_def in_flight_def task_done_def ingest_job_begin_def
                 ingest_job_end_def
           split: option.splits ingest_outcome.splits)

lemma job_wf_run: "job_wf (run es initial)"
proof (induction es rule: rev_induct)
  case Nil
  show ?case by (simp add: run_def job_wf_initial)
next
  case (snoc e es)
  then show ?case by (simp add: run_snoc job_wf_step)
qed

lemma job_inv_initial: "job_inv initial"
  by (simp add: job_inv_def initial_def)

lemma job_inv_step: "job_inv a \<Longrightarrow> \<not> uncaught e \<Longrightarrow> job_inv (step e a)"
proof (cases e)
  case (JobEnds r now)
  assume "job_inv a" and "\<not> uncaught e"
  with JobEnds show ?thesis
    by (cases r) (auto simp: job_inv_def ingest_job_end_def)
qed (auto simp: job_inv_def handle_ingest_def in_flight_def task_done_def ingest_job_begin_def
          split: option.splits)

lemma job_inv_run: "\<not> list_ex uncaught es \<Longrightarrow> job_inv (run es initial)"
proof (induction es rule: rev_induct)
  case Nil
  show ?case by (simp add: run_def job_inv_initial)
next
  case (snoc e es)
  then show ?case by (simp add: run_snoc job_inv_step list_ex_iff)
qed

lemma in_flight_rejected: "in_flight a \<Longrightarrow> handle_ingest a = (AlreadyRunning, a)"
  by (simp add: handle_ingest_def)

text \<open>
  Claim C4, as the source has it: the guard of \<open>/ingest\<close> reads the task, and the status
  can be \<open>running\<close> with the task done. When the task is cancelled while the job waits for
  the ingestion, \<open>except Exception\<close> does not catch the \<open>CancelledError\<close>; the status stays
  \<open>running\<close>, and the next \<open>/ingest\<close> is answered with \<open>Starting\<close> and creates a task.
\<close>

theorem start_accepted_after_cancelled_job:
  "status (ingest_last (run [CmdIngest, JobBegins 1, JobEnds RaisesBase 2] initial)) = running \<and>
   handle_ingest (run [CmdIngest, JobBegins 1, JobEnds RaisesBase 2] initial) =
     (Starting,
      (run [CmdIngest, JobBegins 1, JobEnds RaisesBase 2] initial)
        \<lparr>ingest_task := Some Scheduled\<rparr>)"
  by (simp add: run_def initial_def handle_ingest_def in_flight_def task_done_def
      ingest_job_begin_def ingest_job_end_def)

text \<open>
  Claim C4, amended: in every state the module reaches, while a task is in flight (created
  and not done) an \<open>/ingest\<close> command is answered with \<open>AlreadyRunning\<close> and leaves the
  whole state (the status, the times, the statistics, the error and the task) as it was: no
  second task is created. While the body of the job waits for the ingestion the status is
  \<open>running\<close>; and as long as no exception has left a job uncaught, a status \<open>running\<close>
  means that a task is in flight, so that the command is rejected.
\<close>

theorem start_rejected_while_in_flight:
  "(in_flight (run es initial) \<longrightarrow>
      handle_ingest (run es initial) = (AlreadyRunning, run es initial)) \<and>
   (ingest_task (run es initial) = Some Awaiting \<longrightarrow>
      status (ingest_last (run es initial)) = running \<and> in_flight (run es initial)) \<and>
   (status (ingest_last (run es initial)) = running \<and> \<not> list_ex uncaught es \<longrightarrow>
      in_flight (run es initial) \<and>
      handle_ingest (run es initial) = (AlreadyRunning, run es initial))"
proof (intro conjI impI)
  assume "in_flight (run es initial)"
  then show "handle_ingest (run es initial) = (AlreadyRunning, run es initial)"
    by (rule in_flight_rejected)
next
  assume "ingest_task (run es initial) = Some Awaiting"
  with job_wf_run[of es] show "status (ingest_last (run es initial)) = running"
    by (simp add: job_wf_def)
next
  assume "ingest_task (run es initial) = Some Awaiting"
  then show "in_flight (run es initial)"
    by (simp add: in_flight_def task_done_def)
next
  assume a: "status (ingest_last (run es initial)) = running \<and> \<not> list_ex uncaught es"
  then have "job_inv (run es initial)" by (simp add: job_inv_run)
  with a show f: "in_flight (run es initial)"
    by (simp add: job_inv_def in_flight_def task_done_def)
  then show "handle_ingest (run es initial) = (AlreadyRunning, run es initial)"
    by (rule in_flight_rejected)
qed

theorem start_rejected_while_in_flight_witness:
  "status (ingest_last (run [CmdIngest, JobBegins 10] initial)) = running \<and>
   in_flight (run [CmdIngest, JobBegins 10] initial) \<and>
   handle_ingest (run [CmdIngest, JobBegins 10] initial) =
     (AlreadyRunning, run [CmdIngest, JobBegins 10] initial) \<and>
   run [CmdIngest, JobBegins 10, CmdIngest] initial = run [CmdIngest, JobBegins 10] initial"
proof -
  have r: "status (ingest_last (run [CmdIngest, JobBegins 10] initial)) = running"
    by (simp add: run_def initial_def handle_ingest_def in_flight_def ingest_job_begin_def)
  have u: "\<not> list_ex uncaught [CmdIngest, JobBegins 10]"
    by simp
  from start_rejected_while_in_flight[of "[CmdIngest, JobBegins 10]"] r u
  have f: "in_flight (run [CmdIngest, JobBegins 10] initial)"
    and h: "handle_ingest (run [CmdIngest, JobBegins 10] initial) =
      (AlreadyRunning, run [CmdIngest, JobBegins 10] initial)"
    by blast+
  from h have "run [CmdIngest, JobBegins 10, CmdIngest] initial =
      run [CmdIngest, JobBegins 10] initial"
    using run_snoc[of "[CmdIngest, JobBegins 10]" CmdIngest initial] by simp
  with r f h show ?thesis by blast
qed





subsection \<open>The prompts, the cache and the chain\<close>

lemma unlines_append: "unlines (a @ b) = unlines a @ unlines b"
  by (simp add: unlines_def)

lemma fallback_rule_lines: "unlines SYSTEM_PROMPT_fallback = fallback_rule @ ''\<newline>''"
  by (simp add: unlines_def SYSTEM_PROMPT_fallback_def fallback_rule_def)

lemma fallback_rule_in_SYSTEM_PROMPT: "sublist fallback_rule SYSTEM_PROMPT"
proof -
  have "SYSTEM_PROMPT =
      unlines SYSTEM_PROMPT_head @ fallback_rule @ (''\<newline>'' @ unlines SYSTEM_PROMPT_tail)"
    by (simp add: SYSTEM_PROMPT_def unlines_append fallback_rule_lines)
  then show ?thesis unfolding sublist_def by blast
qed

lemma fallback_phrase_in_rule: "sublist fallback_phrase fallback_rule"
proof -
  have "fallback_rule =
      (''- If the answer is not present in the context, respond exactly:\<newline>'' @
        ''  '' @ ldquo) @ fallback_phrase @ rdquo"
    by (simp add: fallback_rule_def fallback_phrase_def)
  then show ?thesis unfolding sublist_def by blast
qed

lemma fallback_phrase_in_USER_PROMPT_TEMPLATE:
  "sublist fallback_phrase (USER_PROMPT_TEMPLATE input ctx)"
proof -
  have n: "USER_PROMPT_TEMPLATE_instructions ! 10 = (''   '' @ ldquo) @ fallback_phrase @ rdquo"
    by (simp add: USER_PROMPT_TEMPLATE_instructions_def fallback_phrase_def)
  have l: "10 < length USER_PROMPT_TEMPLATE_instructions"
    by (simp add: USER_PROMPT_TEMPLATE_instructions_def)
  have "unlines USER_PROMPT_TEMPLATE_instructions =
      unlines (take 10 USER_PROMPT_TEMPLATE_instructions) @
      unlines [USER_PROMPT_TEMPLATE_instructions ! 10] @
      unlines (drop 11 USER_PROMPT_TEMPLATE_instructions)"
    using id_take_nth_drop[OF l] unlines_append
    by (metis Cons_eq_appendI Suc_numeral add_One_commute append_Nil numeral_One semiring_norm(5) semiring_norm(8) plus_1_eq_Suc)
  then have "USER_PROMPT_TEMPLATE input ctx =
      (''Question: '' @ input @ unlines ['''', '''', ''Context from documents:''] @ ctx @
        unlines (take 10 USER_PROMPT_TEMPLATE_instructions) @ ''   '' @ ldquo) @
      fallback_phrase @
      (rdquo @ ''\<newline>'' @ unlines (drop 11 USER_PROMPT_TEMPLATE_instructions))"
    by (simp add: USER_PROMPT_TEMPLATE_def n unlines_def)
  then show ?thesis unfolding sublist_def by blast
qed

lemma redis_key_eq: "redis_key p' l = redis_key p l \<longleftrightarrow> p' = p"
  by (simp add: redis_key_def)

lemma cache_lookup_update:
  "cache_lookup (cache_update r p l v) p' l = (if p' = p then Some v else cache_lookup r p' l)"
  by (simp add: cache_lookup_def cache_update_def redis_key_eq)

text \<open>
  Claim C1, amended: the cache is keyed by the exact prompt of a model call (with the
  model string), not by a similarity fingerprint. Looking up a prompt after an entry was
  stored gives that entry when the prompt is the stored one, and otherwise what the cache
  held before, whatever the similarity of the two prompts; a call whose prompt has an entry
  returns the stored reply without calling the model; a call on the empty cache calls the
  model once and stores its reply.
\<close>

theorem exact_match_cache:
  "cache_lookup (cache_update r prompt llm_string v) prompt' llm_string =
     (if prompt' = prompt then Some v else cache_lookup r prompt' llm_string) \<and>
   generate_cached (Some (cache_update r prompt llm_string v)) llm_string model prompt =
     (Inr v, Some (cache_update r prompt llm_string v), 0) \<and>
   generate_cached (Some []) llm_string (\<lambda>p. Inr (answer p)) prompt =
     (Inr (answer prompt), Some (cache_update [] prompt llm_string (answer prompt)), 1)"
  by (simp add: cache_lookup_update generate_cached_def)
     (simp add: cache_lookup_def)

text \<open>
  Claim C1, as the source has it: two distinct questions whose fingerprints (here the
  question in lower case) are at distance 0, within \<open>REDIS_CACHE_DISTANCE_THRESHOLD\<close>.
  The cache holds the answer to the first; the second misses it, and the model is called
  again.
\<close>

theorem near_duplicate_question_recomputed:
  "''What is AI?'' \<noteq> ''what is ai?'' \<and>
   example_distance (example_fingerprint ''What is AI?'') (example_fingerprint ''what is ai?'')
     \<le> REDIS_CACHE_DISTANCE_THRESHOLD \<and>
   cache_lookup (cache_update [] ''What is AI?'' ''gpt-4o'' ''first answer'')
     ''what is ai?'' ''gpt-4o'' = None \<and>
   generate_cached (Some (cache_update [] ''What is AI?'' ''gpt-4o'' ''first answer''))
     ''gpt-4o'' (\<lambda>p. Inr ''recomputed'') ''what is ai?'' =
     (Inr ''recomputed'',
      Some (cache_update (cache_update [] ''What is AI?'' ''gpt-4o'' ''first answer'')
              ''what is ai?'' ''gpt-4o'' ''recomputed''), 1)"
proof -
  have fp: "example_fingerprint ''What is AI?'' = example_fingerprint ''what is ai?''"
    by (simp add: example_fingerprint_def lower_def lower_char_def ascii_uppercase_def
        ascii_lowercase_def)
  have miss: "cache_lookup (cache_update [] ''What is AI?'' ''gpt-4o'' ''first answer'')
     ''what is ai?'' ''gpt-4o'' = None"
    by (simp add: cache_lookup_update) (simp add: cache_lookup_def)
  show ?thesis
    by (simp add: fp example_distance_def REDIS_CACHE_DISTANCE_THRESHOLD_def miss
        generate_cached_def)
qed

lemma rerank_stage_skipped:
  assumes "\<not> truthy (cohere_api_key env) \<or>
           (\<exists>e. cohere_rerank env RERANK_TOP_N COHERE_RERANK_MODEL = Inl e)"
  shows "fst (rerank_stage env base) = base"
  using assms by (auto simp: rerank_stage_def)

lemma rerank_stage_no_key: "fst (rerank_stage (env\<lparr>cohere_api_key := None\<rparr>) base) = base"
  by (simp add: rerank_stage_def truthy_def)

lemma multi_query_stage_key [simp]:
  "multi_query_stage (env\<lparr>cohere_api_key := k\<rparr>) base = multi_query_stage env base"
  by (simp add: multi_query_stage_def)

lemma build_chain_retriever:
  "fst (build_chain env) =
     (case vector_store_retriever env RAG_K of
        Inl e \<Rightarrow> Inl e
      | Inr store_retriever \<Rightarrow>
          (case chat_openai env of
             Inl e \<Rightarrow> Inl e
           | Inr llm \<Rightarrow>
               Inr \<lparr>chain_retriever =
                      fst (rerank_stage env (fst (multi_query_stage env store_retriever))),
                    chain_llm = llm\<rparr>))"
  by (simp add: build_chain_def split: sum.splits prod.splits)

text \<open>
  Claim C7, amended: when the credential is absent or empty, or the construction of the
  reranker raises, the reranking stage is skipped: the chain retrieves with the retriever
  it was given, unchanged, and answers as it does with no credential at all.
\<close>

theorem reranker_skipped_when_not_configured:
  assumes "\<not> truthy (cohere_api_key env) \<or>
           (\<exists>e. cohere_rerank env RERANK_TOP_N COHERE_RERANK_MODEL = Inl e)"
  shows "fst (rerank_stage env base_retriever) = base_retriever \<and>
         fst (build_chain env) = fst (build_chain (env\<lparr>cohere_api_key := None\<rparr>)) \<and>
         answer_with_docs env question =
           answer_with_docs (env\<lparr>cohere_api_key := None\<rparr>) question"
proof -
  have b: "fst (build_chain env) = fst (build_chain (env\<lparr>cohere_api_key := None\<rparr>))"
    by (simp add: build_chain_retriever rerank_stage_skipped[OF assms] rerank_stage_no_key
        split: sum.splits)
  show ?thesis
    by (simp add: rerank_stage_skipped[OF assms] b answer_with_docs_def)
qed

theorem reranker_skipped_when_not_configured_witness:
  "fst (rerank_stage (example_env [] ''ok'') (\<lambda>query. Inr [])) = (\<lambda>query. Inr []) \<and>
   fst (rerank_stage
          ((example_env [] ''ok'')\<lparr>cohere_api_key := Some ''key''\<rparr>) (\<lambda>query. Inr [])) =
     (\<lambda>query. Inr []) \<and>
   answer_with_docs ((example_env [] ''ok'')\<lparr>cohere_api_key := Some ''key''\<rparr>) ''q'' =
     answer_with_docs
       ((example_env [] ''ok'')\<lparr>cohere_api_key := Some ''key'', cohere_api_key := None\<rparr>) ''q''"
proof -
  have a: "\<not> truthy (cohere_api_key (example_env [] ''ok'')) \<or>
      (\<exists>e. cohere_rerank (example_env [] ''ok'') RERANK_TOP_N COHERE_RERANK_MODEL = Inl e)"
    by (simp add: example_env_def truthy_def)
  have b: "\<not> truthy (cohere_api_key ((example_env [] ''ok'')\<lparr>cohere_api_key := Some ''key''\<rparr>)) \<or>
      (\<exists>e. cohere_rerank ((example_env [] ''ok'')\<lparr>cohere_api_key := Some ''key''\<rparr>)
             RERANK_TOP_N COHERE_RERANK_MODEL = Inl e)"
    by (simp add: example_env_def)
  from reranker_skipped_when_not_configured[OF a, of "\<lambda>query. Inr []" "''q''"]
    reranker_skipped_when_not_configured[OF b, of "\<lambda>query. Inr []" "''q''"]
  show ?thesis by blast
qed

lemma sorted_set_example:
  "sorted_set [Some ''data/a.txt''] = Inr [Some ''data/a.txt'']"
  by code_simp

text \<open>
  Claim C7, as the source has it: with a credential and a reranker that was constructed,
  a reranking call that fails while a question is answered raises out of
  \<open>answer_with_docs_async\<close>; the documents retrieved do not pass through. Without the
  credential the same question is answered.
\<close>

theorem reranker_failure_at_query_time_raises:
  "answer_with_docs
     ((example_env [example_doc ''data/a.txt'' ''text''] ''answer'')
        \<lparr>cohere_api_key := Some ''key'', cohere_rerank := rerank_unavailable\<rparr>) ''question'' =
     Inl (Exception ''503 Service Unavailable'') \<and>
   answer_with_docs (example_env [example_doc ''data/a.txt'' ''text''] ''answer'') ''question'' =
     Inr (''answer'', [Some ''data/a.txt''], [''text''])"
  by (simp add: answer_with_docs_def build_chain_retriever example_env_def rerank_stage_def
      multi_query_stage_def truthy_def rerank_unavailable_def contextual_compression_def
      ainvoke_def example_doc_def RAG_K_def sorted_set_example)

lemma sorted_set_sources:
  assumes "None \<notin> set xs"
  shows "\<exists>sources. sorted_set xs = Inr (map Some sources) \<and> sorted sources \<and>
           distinct sources \<and> set sources = {s. Some s \<in> set xs}"
proof -
  let ?S = "set [s. Some s \<leftarrow> xs]"
  have S: "?S = {s. Some s \<in> set xs}"
    by (auto split: option.splits)
  have "sorted_set xs = Inr (map Some (sorted_list_of_set ?S))"
    using assms by (simp add: sorted_set_def)
  moreover have "sorted (sorted_list_of_set (set ys)) \<and> distinct (sorted_list_of_set (set ys)) \<and>
    set (sorted_list_of_set (set ys)) = set ys" for ys :: "string list"
    by simp
  ultimately show ?thesis unfolding S [symmetric] by blast
qed

text \<open>
  Claim C8, as the source has it: a context document without the key \<open>source\<close> in its
  metadata contributes \<open>None\<close>. A context of one such document gives the list \<open>[None]\<close>,
  which holds no source identifier of a document; a context of one such document and a
  document with a source gives no list: \<open>sorted\<close> raises the \<open>TypeError\<close>.
\<close>

theorem context_document_without_source:
  "answer_with_docs
     (example_env [\<lparr>page_content = ''one'', metadata = []\<rparr>] ''answer'') ''question'' =
     Inr (''answer'', [None], [''one'']) \<and>
   answer_with_docs
     (example_env
        [\<lparr>page_content = ''one'', metadata = []\<rparr>, example_doc ''data/a.txt'' ''two'']
        ''answer'') ''question'' =
     Inl (Exception ''TypeError: < not supported between NoneType and str'')"
proof -
  let ?d = "\<lparr>page_content = ''one'', metadata = []\<rparr> :: document"
  have chain: "fst (build_chain (example_env docs ''answer'')) =
      Inr \<lparr>chain_retriever = (\<lambda>query. Inr (take RAG_K docs)),
           chain_llm = (\<lambda>messages. Inr ''answer'')\<rparr>" for docs
    by (simp add: build_chain_retriever example_env_def rerank_stage_def
        multi_query_stage_def truthy_def USE_MULTI_QUERY_def)
  have one: "answer_with_docs (example_env [?d] ''answer'') ''question'' =
      Inr (''answer'', [None], [''one''])"
    by (simp add: answer_with_docs_def chain ainvoke_def RAG_K_def sorted_set_def)
  have two: "answer_with_docs (example_env [?d, example_doc ''data/a.txt'' ''two''] ''answer'')
      ''question'' = Inl (Exception ''TypeError: < not supported between NoneType and str'')"
    by (simp add: answer_with_docs_def chain ainvoke_def RAG_K_def sorted_set_def
        example_doc_def)
  from one two show ?thesis by (rule conjI)
qed

text \<open>
  Claim C8, amended: when the chain answers from context documents that all carry a
  source, the sources returned are sorted and free of duplicates, they are exactly the
  sources of the context documents (so none is absent from the context), and an empty
  context gives the empty list.
\<close>

theorem sources_sorted_distinct_from_context:
  assumes chain: "fst (build_chain env) = Inr chain"
    and result: "ainvoke chain question = Inr (answer, docs)"
    and src: "\<forall>d \<in> set docs. map_of (metadata d) ''source'' \<noteq> None"
  shows "\<exists>sources.
           answer_with_docs env question =
             Inr (answer, map Some sources, map page_content docs) \<and>
           sorted sources \<and> distinct sources \<and>
           set sources = {s. \<exists>d \<in> set docs. map_of (metadata d) ''source'' = Some s} \<and>
           (docs = [] \<longrightarrow> sources = [])"
proof -
  let ?xs = "map (\<lambda>d. map_of (metadata d) ''source'') docs"
  from src have "None \<notin> set ?xs" by force
  from sorted_set_sources[OF this] obtain sources where
    s: "sorted_set ?xs = Inr (map Some sources)" "sorted sources" "distinct sources"
       "set sources = {s. Some s \<in> set ?xs}"
    by blast
  have "{s. Some s \<in> set ?xs} = {s. \<exists>d \<in> set docs. map_of (metadata d) ''source'' = Some s}"
    by force
  with s have set: "set sources = {s. \<exists>d \<in> set docs. map_of (metadata d) ''source'' = Some s}"
    by simp
  have "answer_with_docs env question = Inr (answer, map Some sources, map page_content docs)"
    by (simp add: answer_with_docs_def chain result s(1))
  moreover from set have "docs = [] \<longrightarrow> sources = []" by auto
  ultimately show ?thesis using s(2,3) set by blast
qed

text \<open>
  Claim C9, amended: the system prompt holds the rule to respond exactly with the fallback
  phrase (written with typographic quotation marks and apostrophe) when the answer is not
  in the context, and the user prompt holds the phrase among its instructions. With an
  empty context the answer returned is the reply of the model to these prompts with an
  empty context, whatever it is, with no sources and no context; the code does not put the
  phrase in its place.
\<close>

theorem empty_context_answer_is_model_reply:
  assumes chain: "fst (build_chain env) = Inr chain"
    and empty: "chain_retriever chain question = Inr []"
  shows "sublist fallback_rule SYSTEM_PROMPT \<and>
         sublist fallback_phrase fallback_rule \<and>
         sublist fallback_phrase (USER_PROMPT_TEMPLATE question []) \<and>
         answer_with_docs env question =
           (case chain_llm chain (SYSTEM_PROMPT, USER_PROMPT_TEMPLATE question []) of
              Inl e \<Rightarrow> Inl e
            | Inr answer \<Rightarrow> Inr (answer, [], []))"
proof -
  have "sorted_set [] = Inr []" by (simp add: sorted_set_def)
  then have "answer_with_docs env question =
           (case chain_llm chain (SYSTEM_PROMPT, USER_PROMPT_TEMPLATE question []) of
              Inl e \<Rightarrow> Inl e
            | Inr answer \<Rightarrow> Inr (answer, [], []))"
    by (simp add: answer_with_docs_def chain ainvoke_def empty str_join_def split: sum.splits)
  then show ?thesis
    using fallback_rule_in_SYSTEM_PROMPT fallback_phrase_in_rule
      fallback_phrase_in_USER_PROMPT_TEMPLATE by blast
qed

theorem sources_sorted_distinct_from_context_witness:
  "answer_with_docs
     (example_env
        [example_doc ''data/b.pdf'' ''one'', example_doc ''data/a.txt'' ''two'',
         example_doc ''data/b.pdf'' ''three''] ''answer'') ''question'' =
     Inr (''answer'', [Some ''data/a.txt'', Some ''data/b.pdf''], [''one'', ''two'', ''three'']) \<and>
   (\<exists>sources.
      answer_with_docs
        (example_env
           [example_doc ''data/b.pdf'' ''one'', example_doc ''data/a.txt'' ''two'',
            example_doc ''data/b.pdf'' ''three''] ''answer'') ''question'' =
        Inr (''answer'', map Some sources, [''one'', ''two'', ''three'']) \<and>
      sorted sources \<and> distinct sources \<and> set sources = {''data/a.txt'', ''data/b.pdf''})"
proof -
  let ?docs = "[example_doc ''data/b.pdf'' ''one'', example_doc ''data/a.txt'' ''two'',
         example_doc ''data/b.pdf'' ''three'']"
  let ?chain = "\<lparr>chain_retriever = (\<lambda>query. Inr (take RAG_K ?docs)),
                 chain_llm = (\<lambda>messages. Inr ''answer'')\<rparr>"
  have chain: "fst (build_chain (example_env ?docs ''answer'')) = Inr ?chain"
    by (simp add: build_chain_retriever example_env_def rerank_stage_def
        multi_query_stage_def truthy_def USE_MULTI_QUERY_def)
  have result: "ainvoke ?chain ''question'' = Inr (''answer'', ?docs)"
    by (simp add: ainvoke_def RAG_K_def)
  have src: "\<forall>d \<in> set ?docs. map_of (metadata d) ''source'' \<noteq> None"
    by (simp add: example_doc_def)
  have srcs: "{s. \<exists>d \<in> set ?docs. map_of (metadata d) ''source'' = Some s} =
      {''data/a.txt'', ''data/b.pdf''}"
    by (auto simp: example_doc_def)
  have texts: "map page_content ?docs = [''one'', ''two'', ''three'']"
    by (simp add: example_doc_def)
  have sorted: "sorted_set (map (\<lambda>d. map_of (metadata d) ''source'') ?docs) =
      Inr [Some ''data/a.txt'', Some ''data/b.pdf'']"
    by code_simp
  have direct: "answer_with_docs (example_env ?docs ''answer'') ''question'' =
      Inr (''answer'', [Some ''data/a.txt'', Some ''data/b.pdf''], [''one'', ''two'', ''three''])"
    by (simp only: answer_with_docs_def chain result sorted texts sum.case prod.case)
  from sources_sorted_distinct_from_context[OF chain result src]
  have "\<exists>sources.
      answer_with_docs (example_env ?docs ''answer'') ''question'' =
        Inr (''answer'', map Some sources, [''one'', ''two'', ''three'']) \<and>
      sorted sources \<and> distinct sources \<and> set sources = {''data/a.txt'', ''data/b.pdf''}"
    unfolding srcs texts by blast
  with direct show ?thesis by blast
qed

theorem empty_context_answer_is_model_reply_witness:
  "answer_with_docs (example_env [] fallback_phrase) ''Who wrote the order?'' =
     Inr (fallback_phrase, [], [])"
proof -
  let ?chain = "\<lparr>chain_retriever = (\<lambda>query. Inr (take RAG_K [])),
                 chain_llm = (\<lambda>messages. Inr fallback_phrase)\<rparr>"
  have chain: "fst (build_chain (example_env [] fallback_phrase)) = Inr ?chain"
    by (simp add: build_chain_retriever example_env_def rerank_stage_def
        multi_query_stage_def truthy_def USE_MULTI_QUERY_def)
  have empty: "chain_retriever ?chain ''Who wrote the order?'' = Inr []"
    by simp
  from empty_context_answer_is_model_reply[OF chain empty]
  have "answer_with_docs (example_env [] fallback_phrase) ''Who wrote the order?'' =
      (case chain_llm ?chain (SYSTEM_PROMPT, USER_PROMPT_TEMPLATE ''Who wrote the order?'' []) of
         Inl e \<Rightarrow> Inl e
       | Inr answer \<Rightarrow> Inr (answer, [], []))"
    by blast
  then show ?thesis by simp
qed

text \<open>
  Claim C9, as the source has it: with an empty context and a model that replies something
  else, the answer returned is that reply and not the fallback phrase.
\<close>

theorem empty_context_answer_not_forced:
  "answer_with_docs (example_env [] ''Paris is the capital of France.'')
     ''What is the capital of France?'' =
     Inr (''Paris is the capital of France.'', [], []) \<and>
   ''Paris is the capital of France.'' \<noteq> fallback_phrase_ascii \<and>
   ''Paris is the capital of France.'' \<noteq> fallback_phrase"
  by (simp add: answer_with_docs_def build_chain_retriever example_env_def rerank_stage_def
      multi_query_stage_def truthy_def USE_MULTI_QUERY_def ainvoke_def sorted_set_def
      fallback_phrase_ascii_def fallback_phrase_def)

end
